theory Spec2Isabelle
  imports Main "HOL-Library.Word"
begin

section \<open>Data model\<close>

text \<open>
  The program (\<^verbatim>\<open>appy.py\<close>) keeps traffic counts in one CSV file and shows them in a
  Streamlit page. Its effects are made explicit here: the file, the wall clock, the random
  number generator, the session state and the calls made to the page are fields of a
  \<open>world\<close> that every operation takes and returns.

  A timestamp is a reading of the wall clock: a number of microseconds (the resolution of
  \<^verbatim>\<open>datetime.now()\<close>) on the naive local time line. The hour of day and the calendar day
  are computed from it; the text \<^verbatim>\<open>strftime('%Y-%m-%d')\<close> of a day is represented by the
  number of that day.
\<close>

type_synonym timestamp = int

definition hour_of :: "timestamp \<Rightarrow> nat" where
  "hour_of t = nat ((t div 3600000000) mod 24)"

definition strftime_date :: "timestamp \<Rightarrow> int" where
  "strftime_date t = t div 86400000000"

text \<open>
  pandas holds a column of integer counts as 64-bit signed integers: \<open>sint\<close> reads the
  value of one, and their addition wraps around. A Python integer fits such a column when
  it lies from \<open>- 2 ^ 63\<close> up to \<open>2 ^ 63 - 1\<close>.
\<close>

type_synonym int64 = "64 word"

definition int64_of :: "int \<Rightarrow> int64 option" where
  "int64_of n = (if - (2 ^ 63) \<le> n \<and> n < 2 ^ 63 then Some (word_of_int n) else None)"

definition int64_less :: "int64 \<Rightarrow> int64 \<Rightarrow> bool" where
  "int64_less a b \<longleftrightarrow> sint a < sint b"

definition int64_max :: "int64 \<Rightarrow> int64 \<Rightarrow> int64" where
  "int64_max a b = (if int64_less b a then a else b)"

text \<open>
  The five columns of the file, in the file's order. The type of the \<open>Time\<close> column is a
  parameter: text in the file as \<^verbatim>\<open>read_csv\<close> returns it, a timestamp once
  \<^verbatim>\<open>pd.to_datetime\<close> has converted it. The three count columns are int64 columns: the
  model covers the files whose counts all fit 64 bits, which are the files the program
  writes as long as the counts it is given fit (see \<open>add_entry\<close>).
\<close>

record 't row =
  Date :: int
  Time :: 't
  Cars :: int64
  Bicycles :: int64
  Pedestrians :: int64

text \<open>
  The text of a \<open>Time\<close> cell: the rendering of a timestamp, or a text that
  \<^verbatim>\<open>pd.to_datetime\<close> rejects. (An empty cell, which is read as a missing time, is not
  represented: the program writes none.)
\<close>

datatype time_text = Stamp timestamp | Malformed

datatype dtype = Object | Datetime64

text \<open>
  A DataFrame: its rows in order, the dtype of its \<open>Time\<close> column, and the two derived
  columns \<open>Total\<close> and \<open>Hour\<close> that \<^verbatim>\<open>analyze_data\<close> adds (absent until then).
\<close>

record dataframe =
  rows :: "timestamp row list"
  time_dtype :: dtype
  Total :: "int64 list option"
  Hour :: "nat list option"

text \<open>
  The first three errors are the Python exceptions of the calls modelled here.
  \<open>EmptyInputError\<close> is the error the specification names for an analysis of no records;
  no call of the program raises it.
\<close>

datatype error = FileNotFoundError | ValueError | AttributeError | EmptyInputError

text \<open>
  How an operation on the world ends: it returns, it raises, or it leaves the int64
  columns (\<open>Beyond_int64\<close>): a count that does not fit 64 bits was put into a frame. pandas
  then changes the dtype of the column (to uint64, float64 or object, depending on the
  value and on the rows already there) and the file then holds texts of other kinds. What
  the program does from there on is not modelled: the run, and the session, end in the
  model at that point.
\<close>

datatype outcome = Returns | Raises error | Beyond_int64

text \<open>
  What the page is asked to show. The literal texts of the source are kept; a formatted
  text (an f-string) is kept as its arguments.
\<close>

datatype message =
    Lit string
  | Auto_generated int int int
  | Manual_recorded int int int
  | High_traffic_alert int
  | Peak_traffic_hour nat "int64 option"

datatype st_call =
    St_title message
  | St_header message
  | St_subheader message
  | St_success message
  | St_info message
  | St_error message
  | St_write dataframe
  | St_pyplot_line
  | St_pyplot_bar "(nat \<times> int64) list"

text \<open>
  The outcome of one evaluation of the auto-generation test of \<^verbatim>\<open>main\<close>: the interval
  had not elapsed (\<open>Not_due\<close>); it had, \<^verbatim>\<open>auto_generate_data\<close> was called and returned
  (\<open>Generated\<close>); it had, \<^verbatim>\<open>auto_generate_data\<close> was called and raised (\<open>Raised\<close>).
\<close>

datatype check_outcome = Not_due | Generated | Raised

text \<open>
  The world.
  \<^item> \<open>csv_file\<close>: the content of \<^verbatim>\<open>traffic_counts.csv\<close>, \<open>None\<close> when there is no such file;
  \<^item> \<open>now\<close>, \<open>ticks\<close>, \<open>reads\<close>: the wall clock. A reading returns \<open>now\<close>; the next reading
    differs from it by \<open>ticks reads\<close>, which is negative when the clock is set back in
    between (\<^verbatim>\<open>datetime.now()\<close> is local wall time, not a monotonic clock);
  \<^item> \<open>rand\<close>, \<open>draws\<close>: the raw output of the random number generator and the number of
    values drawn so far;
  \<^item> \<open>last_auto_time\<close>: \<^verbatim>\<open>st.session_state.last_auto_time\<close>, \<open>None\<close> while the key is
    not in the session state;
  \<^item> \<open>screen\<close>: the calls made to the page, oldest first;
  \<^item> \<open>checks\<close>: a history of the auto-generation tests, oldest first: the clock reading
    of each test and its outcome. Nothing reads it; it only records.
\<close>

record world =
  csv_file :: "time_text row list option"
  now :: timestamp
  ticks :: "nat \<Rightarrow> int"
  reads :: nat
  rand :: "nat \<Rightarrow> nat"
  draws :: nat
  last_auto_time :: "timestamp option"
  screen :: "st_call list"
  checks :: "(timestamp \<times> check_outcome) list"

definition RECORDS_PER_ANALYSIS :: nat where
  "RECORDS_PER_ANALYSIS = 24"

definition AUTO_INTERVAL_SECONDS :: int where
  "AUTO_INTERVAL_SECONDS = 10"

definition HIGH_TRAFFIC_THRESHOLD :: int where
  "HIGH_TRAFFIC_THRESHOLD = 50"

section \<open>Library calls\<close>

definition datetime_now :: "world \<Rightarrow> timestamp \<times> world" where
  "datetime_now w = (now w, w\<lparr>now := now w + ticks w (reads w), reads := Suc (reads w)\<rparr>)"

text \<open>\<^verbatim>\<open>random.randint(a, b)\<close>: an integer of the closed range from \<open>a\<close> to \<open>b\<close>.\<close>

definition randint :: "int \<Rightarrow> int \<Rightarrow> world \<Rightarrow> int \<times> world" where
  "randint a b w =
     (a + int (rand w (draws w)) mod (b - a + 1), w\<lparr>draws := Suc (draws w)\<rparr>)"

definition st :: "st_call \<Rightarrow> world \<Rightarrow> world" where
  "st c w = w\<lparr>screen := screen w @ [c]\<rparr>"

definition read_csv :: "world \<Rightarrow> error + time_text row list" where
  "read_csv w = (case csv_file w of None \<Rightarrow> Inl FileNotFoundError | Some raw \<Rightarrow> Inr raw)"

text \<open>
  \<^verbatim>\<open>pd.to_datetime\<close> on a column of texts: the timestamps, or \<^verbatim>\<open>ValueError\<close> at a text
  that is not one.
\<close>

fun to_datetime :: "time_text list \<Rightarrow> error + timestamp list" where
  "to_datetime [] = Inr []"
| "to_datetime (Stamp t # cs) =
     (case to_datetime cs of Inl e \<Rightarrow> Inl e | Inr ts \<Rightarrow> Inr (t # ts))"
| "to_datetime (Malformed # cs) = Inl ValueError"

definition set_Time :: "'s row \<Rightarrow> 't \<Rightarrow> 't row" where
  "set_Time r t =
     \<lparr>Date = Date r, Time = t, Cars = Cars r, Bicycles = Bicycles r,
      Pedestrians = Pedestrians r\<rparr>"

text \<open>
  \<^verbatim>\<open>df.to_csv(CSV_FILE, index=False)\<close>: the five columns of every row, the timestamps as
  their texts. The derived columns are never written: the frames the program writes come
  from \<^verbatim>\<open>load_data\<close> and \<^verbatim>\<open>pd.concat\<close> and have none.
\<close>

definition to_csv :: "timestamp row list \<Rightarrow> world \<Rightarrow> world" where
  "to_csv rs w = w\<lparr>csv_file := Some (map (\<lambda>r. set_Time r (Stamp (Time r))) rs)\<rparr>"

definition os_path_exists :: "world \<Rightarrow> bool" where
  "os_path_exists w = (csv_file w \<noteq> None)"

definition os_remove :: "world \<Rightarrow> world" where
  "os_remove w = w\<lparr>csv_file := None\<rparr>"

section \<open>The record store\<close>

text \<open>\<^verbatim>\<open>pd.DataFrame(columns=[...])\<close>: no rows, every column of dtype object.\<close>

definition empty_frame :: dataframe where
  "empty_frame = \<lparr>rows = [], time_dtype = Object, Total = None, Hour = None\<rparr>"

text \<open>
  \<^verbatim>\<open>load_data\<close>: only \<^verbatim>\<open>FileNotFoundError\<close> is caught; an error of the conversion of
  the \<open>Time\<close> column leaves the function.
\<close>

definition load_data :: "world \<Rightarrow> (error + dataframe) \<times> world" where
  "load_data w =
     (case read_csv w of
        Inr raw \<Rightarrow>
          (case to_datetime (map Time raw) of
             Inr ts \<Rightarrow>
               (Inr \<lparr>rows = map2 set_Time raw ts, time_dtype = Datetime64,
                     Total = None, Hour = None\<rparr>, w)
           | Inl e \<Rightarrow> (Inl e, w))
      | Inl FileNotFoundError \<Rightarrow> (Inr empty_frame, to_csv (rows empty_frame) w)
      | Inl e \<Rightarrow> (Inl e, w))"

text \<open>
  \<^verbatim>\<open>add_entry\<close>: the clock is read twice, first for the \<open>Date\<close> column and then for the
  \<open>Time\<close> column. The one-row frame \<^verbatim>\<open>new_entry\<close> has int64 count columns when the three
  counts fit; \<^verbatim>\<open>pd.concat\<close> then appends its row and the whole file is rewritten. When a
  count does not fit, the frame that is written has a count column of another dtype, and
  the model ends.
\<close>

definition add_entry :: "int \<Rightarrow> int \<Rightarrow> int \<Rightarrow> world \<Rightarrow> outcome \<times> world" where
  "add_entry cars bicycles pedestrians w =
     (case load_data w of
        (Inl e, w1) \<Rightarrow> (Raises e, w1)
      | (Inr df, w1) \<Rightarrow>
          (let (d, w2) = datetime_now w1;
               (t, w3) = datetime_now w2
           in case (int64_of cars, int64_of bicycles, int64_of pedestrians) of
                (Some c, Some b, Some p) \<Rightarrow>
                  (let new_entry = \<lparr>Date = strftime_date d, Time = t, Cars = c,
                                    Bicycles = b, Pedestrians = p\<rparr>
                   in (Returns, to_csv (rows df @ [new_entry]) w3))
              | _ \<Rightarrow> (Beyond_int64, w3)))"

definition clear_data :: "world \<Rightarrow> world" where
  "clear_data w =
     (if os_path_exists w
      then st (St_success (Lit ''All previous traffic data has been cleared!'')) (os_remove w)
      else st (St_info (Lit ''No data file found to delete.'')) w)"

section \<open>The aggregator\<close>

text \<open>
  A Series indexed by hour is the list of its (hour, value) pairs in index order.

  \<^verbatim>\<open>df['Time'].dt.hour\<close>: the \<^verbatim>\<open>.dt\<close> accessor exists on a datetime column only.
\<close>

definition dt_hour :: "dataframe \<Rightarrow> error + nat list" where
  "dt_hour df =
     (case time_dtype df of
        Object \<Rightarrow> Inl AttributeError
      | Datetime64 \<Rightarrow> Inr (map (\<lambda>r. hour_of (Time r)) (rows df)))"

text \<open>
  \<^verbatim>\<open>groupby(key)[value].sum()\<close> on the rows given as (key, value) pairs: one entry for
  each key present, the keys in ascending order (\<^verbatim>\<open>sort=True\<close> is the default). The sum
  is the int64 sum: it wraps around.
\<close>

definition groupby_sum :: "(nat \<times> int64) list \<Rightarrow> (nat \<times> int64) list" where
  "groupby_sum kvs =
     map (\<lambda>k. (k, sum_list (map snd (filter (\<lambda>kv. fst kv = k) kvs))))
       (sort (remdups (map fst kvs)))"

text \<open>The scan of \<^verbatim>\<open>idxmax\<close>: the entry kept changes only at a strictly larger value.\<close>

fun first_max :: "nat \<times> int64 \<Rightarrow> (nat \<times> int64) list \<Rightarrow> nat \<times> int64" where
  "first_max best [] = best"
| "first_max best (kv # kvs) =
     first_max (if int64_less (snd best) (snd kv) then kv else best) kvs"

text \<open>\<^verbatim>\<open>Series.idxmax()\<close>: \<^verbatim>\<open>ValueError\<close> on an empty Series.\<close>

definition idxmax :: "(nat \<times> int64) list \<Rightarrow> error + nat" where
  "idxmax s = (case s of [] \<Rightarrow> Inl ValueError | kv # kvs \<Rightarrow> Inr (fst (first_max kv kvs)))"

text \<open>\<^verbatim>\<open>Series.max()\<close>: not a number (\<open>None\<close>) on an empty Series.\<close>

definition series_max :: "(nat \<times> int64) list \<Rightarrow> int64 option" where
  "series_max s =
     (case s of [] \<Rightarrow> None | kv # kvs \<Rightarrow> Some (fold int64_max (map snd kvs) (snd kv)))"

text \<open>
  \<^verbatim>\<open>analyze_data\<close> assigns two columns of the frame it is given, so the frame is returned
  with the outcome; when the function raises, the frame keeps the columns assigned
  before. The column \<open>Total\<close> is the int64 sum of the three count columns.
\<close>

definition analyze_data ::
  "dataframe \<Rightarrow> (error + ((nat \<times> int64) list \<times> nat \<times> int64 option)) \<times> dataframe" where
  "analyze_data df =
     (let total = map (\<lambda>r. Cars r + Bicycles r + Pedestrians r) (rows df);
          df1 = df\<lparr>Total := Some total\<rparr>
      in case dt_hour df1 of
           Inl e \<Rightarrow> (Inl e, df1)
         | Inr hour \<Rightarrow>
             (let df2 = df1\<lparr>Hour := Some hour\<rparr>;
                  traffic_by_hour = groupby_sum (zip hour total)
              in case idxmax traffic_by_hour of
                   Inl e \<Rightarrow> (Inl e, df2)
                 | Inr peak_hour \<Rightarrow>
                     (Inr (traffic_by_hour, peak_hour, series_max traffic_by_hour), df2)))"

section \<open>The sample generator\<close>

definition auto_generate_data :: "world \<Rightarrow> outcome \<times> world" where
  "auto_generate_data w =
     (let (cars, w1) = randint 0 20 w;
          (bicycles, w2) = randint 0 15 w1;
          (pedestrians, w3) = randint 0 30 w2
      in case add_entry cars bicycles pedestrians w3 of
           (Returns, w4) \<Rightarrow>
             (Returns, st (St_info (Auto_generated cars bicycles pedestrians)) w4)
         | (r, w4) \<Rightarrow> (r, w4))"

section \<open>The page\<close>

text \<open>
  One run of \<^verbatim>\<open>main\<close> gets the state of the widgets: the three number inputs (Python
  integers) and whether each button was pressed.
\<close>

record inputs =
  cars_input :: int
  bicycles_input :: int
  pedestrians_input :: int
  record_button :: bool
  clear_button :: bool

text \<open>
  \<^verbatim>\<open>main\<close> is given in three parts. The first: the title, the manual entry with its
  alert, and the two buttons. The sum of the three inputs is a sum of Python integers.
\<close>

definition main_entry :: "inputs \<Rightarrow> world \<Rightarrow> outcome \<times> world" where
  "main_entry inp w =
     (let w1 = st (St_title (Lit ''Traffic Count Study App with Auto and Manual Data'')) w;
          w2 = st (St_header (Lit ''Manual Entry of Traffic Counts'')) w1;
          cars = cars_input inp;
          bicycles = bicycles_input inp;
          pedestrians = pedestrians_input inp;
          total_manual = cars + bicycles + pedestrians;
          w3 = (if total_manual > HIGH_TRAFFIC_THRESHOLD
                then st (St_error (High_traffic_alert total_manual)) w2 else w2)
      in case (if record_button inp
               then (case add_entry cars bicycles pedestrians w3 of
                       (Returns, w4) \<Rightarrow>
                         (Returns, st (St_success (Manual_recorded cars bicycles pedestrians)) w4)
                     | (r, w4) \<Rightarrow> (r, w4))
               else (Returns, w3)) of
           (Returns, w5) \<Rightarrow> (Returns, if clear_button inp then clear_data w5 else w5)
         | (r, w5) \<Rightarrow> (r, w5))"

text \<open>
  The second part: the auto-generation test. \<^verbatim>\<open>total_seconds()\<close> is the difference of
  the two readings in seconds; the comparison with the interval is made here on the
  microseconds. \<open>last_auto_time\<close> is assigned only when \<^verbatim>\<open>auto_generate_data\<close> has
  returned: an exception leaves the run before the assignment. Each test is entered in
  \<open>checks\<close> with the reading it compared.
\<close>

definition main_auto :: "world \<Rightarrow> outcome \<times> world" where
  "main_auto w =
     (let (last, w1) =
            (case last_auto_time w of
               None \<Rightarrow> (let (t0, w') = datetime_now w in (t0, w'\<lparr>last_auto_time := Some t0\<rparr>))
             | Some l \<Rightarrow> (l, w));
          (t, w2) = datetime_now w1;
          time_diff = t - last
      in if time_diff > AUTO_INTERVAL_SECONDS * 1000000
         then (case auto_generate_data w2 of
                 (Returns, w3) \<Rightarrow>
                   (let (t', w4) = datetime_now w3
                    in (Returns, w4\<lparr>last_auto_time := Some t',
                                     checks := checks w4 @ [(t, Generated)]\<rparr>))
               | (Raises e, w3) \<Rightarrow> (Raises e, w3\<lparr>checks := checks w3 @ [(t, Raised)]\<rparr>)
               | (Beyond_int64, w3) \<Rightarrow> (Beyond_int64, w3))
         else (Returns, w2\<lparr>checks := checks w2 @ [(t, Not_due)]\<rparr>))"

text \<open>
  The third part: the table, the line chart and, when the number of records is a positive
  multiple of the batch size, the analysis. The charts are drawn by the plotting library
  and are kept as calls only.
\<close>

definition main_show :: "dataframe \<Rightarrow> world \<Rightarrow> outcome \<times> world" where
  "main_show df w =
     (let w1 = st (St_header (Lit ''Recorded Traffic Data'')) w
      in if rows df = []
         then (Returns, st (St_info (Lit ''No data recorded yet.'')) w1)
         else
           (let w2 = st (St_write df) w1;
                w3 = st St_pyplot_line w2
            in if length (rows df) \<ge> RECORDS_PER_ANALYSIS
                  \<and> length (rows df) mod RECORDS_PER_ANALYSIS = 0
               then (case analyze_data df of
                       (Inl e, df') \<Rightarrow> (Raises e, w3)
                     | (Inr (traffic_by_hour, peak_hour, peak_traffic), df') \<Rightarrow>
                         (let w4 = st (St_header (Lit ''Traffic Analysis'')) w3;
                              w5 = st (St_subheader (Peak_traffic_hour peak_hour peak_traffic)) w4
                          in (Returns, st (St_pyplot_bar traffic_by_hour) w5)))
               else (Returns, w3)))"

definition main :: "inputs \<Rightarrow> world \<Rightarrow> outcome \<times> world" where
  "main inp w =
     (case main_entry inp w of
        (Returns, w1) \<Rightarrow>
          (case main_auto w1 of
             (Returns, w2) \<Rightarrow>
               (case load_data w2 of
                  (Inl e, w3) \<Rightarrow> (Raises e, w3)
                | (Inr df, w3) \<Rightarrow> main_show df w3)
           | (r, w2) \<Rightarrow> (r, w2))
      | (r, w1) \<Rightarrow> (r, w1))"

text \<open>
  A session: the script is run again at every interaction, also after a run that raised;
  the file, the clock and the session state go from one run to the next. The model of a
  session ends with the first run that leaves the int64 columns; a run whose inputs fit
  64 bits does not (lemma \<open>main_within_int64\<close> below).
\<close>

fun session :: "inputs list \<Rightarrow> world \<Rightarrow> world" where
  "session [] w = w"
| "session (inp # inps) w =
     (let (r, w') = main inp w
      in if r = Beyond_int64 then w' else session inps w')"

section \<open>The hourly aggregate, in the words of the specification\<close>

text \<open>
  The specification derives from every record its total (cars + bicycles + pedestrians)
  and its hour (the hour of its timestamp); the hourly aggregate maps every hour present
  in the data to the sum of the totals of the records of that hour. These definitions
  follow those words: the totals and their sums are sums of integers, which do not wrap.
  The theorems below compare \<open>analyze_data\<close> with them.
\<close>

definition record_total :: "timestamp row \<Rightarrow> int" where
  "record_total r = sint (Cars r) + sint (Bicycles r) + sint (Pedestrians r)"

definition record_hour :: "timestamp row \<Rightarrow> nat" where
  "record_hour r = hour_of (Time r)"

definition hours_present :: "dataframe \<Rightarrow> nat set" where
  "hours_present df = record_hour ` set (rows df)"

definition hour_total :: "dataframe \<Rightarrow> nat \<Rightarrow> int" where
  "hour_total df h = sum_list (map record_total (filter (\<lambda>r. record_hour r = h) (rows df)))"

section \<open>Auxiliary notions\<close>

text \<open>
  \<open>hourly\<close> is the Series that \<open>analyze_data\<close> computes on a datetime frame: for every hour
  present, in ascending order, the hourly total as an int64 value.
\<close>

definition hourly :: "dataframe \<Rightarrow> (nat \<times> int64) list" where
  "hourly df =
     map (\<lambda>h. (h, word_of_int (hour_total df h))) (sort (remdups (map record_hour (rows df))))"

text \<open>
  \<open>is_st_error\<close> recognises a call of \<^verbatim>\<open>st.error\<close>. \<open>alert_shown\<close> is the world when
  \<^verbatim>\<open>main\<close> has passed its alert test: the title and the header are on the page, and so
  is the alert if the test held. \<open>adds_no_error\<close> relates two worlds when the page of the
  second is the page of the first followed by calls other than \<^verbatim>\<open>st.error\<close>.
\<close>

definition is_st_error :: "st_call \<Rightarrow> bool" where
  "is_st_error c = (case c of St_error m \<Rightarrow> True | _ \<Rightarrow> False)"

definition alert_shown :: "inputs \<Rightarrow> world \<Rightarrow> world" where
  "alert_shown inp w =
     (let w2 = st (St_header (Lit ''Manual Entry of Traffic Counts''))
                 (st (St_title (Lit ''Traffic Count Study App with Auto and Manual Data'')) w);
          total_manual = cars_input inp + bicycles_input inp + pedestrians_input inp
      in if total_manual > HIGH_TRAFFIC_THRESHOLD
         then st (St_error (High_traffic_alert total_manual)) w2 else w2)"

definition adds_no_error :: "world \<Rightarrow> world \<Rightarrow> bool" where
  "adds_no_error w w' \<longleftrightarrow> (\<exists>cs. screen w' = screen w @ cs \<and> filter is_st_error cs = [])"

text \<open>
  \<open>steady\<close> says that the clock of a world is never set back. \<open>timer_kept\<close> relates two
  worlds when the second has the timer state, the history and the clock steps of the
  first, and a clock that is not behind if the clock is steady. \<open>spaced\<close> says of a history
  that a test that generated a record is followed, by every later test that was due, at
  more than the interval. \<open>timer_inv\<close> is the invariant of a session on a steady clock:
  the history is spaced, no test that generated is later than \<open>last_auto_time\<close>, and
  \<open>last_auto_time\<close> is not later than the clock.
\<close>

definition steady :: "world \<Rightarrow> bool" where
  "steady w \<longleftrightarrow> (\<forall>n. 0 \<le> ticks w n)"

definition timer_kept :: "world \<Rightarrow> world \<Rightarrow> bool" where
  "timer_kept w w' \<longleftrightarrow>
     last_auto_time w' = last_auto_time w \<and> checks w' = checks w \<and> ticks w' = ticks w \<and>
     (steady w \<longrightarrow> now w \<le> now w')"

definition spaced :: "(timestamp \<times> check_outcome) list \<Rightarrow> bool" where
  "spaced cs \<longleftrightarrow>
     (\<forall>i j. i < j \<and> j < length cs \<and> snd (cs ! i) = Generated \<and> snd (cs ! j) \<noteq> Not_due
        \<longrightarrow> AUTO_INTERVAL_SECONDS * 1000000 < fst (cs ! j) - fst (cs ! i))"

definition timer_inv :: "world \<Rightarrow> bool" where
  "timer_inv w \<longleftrightarrow>
     steady w \<and> spaced (checks w) \<and>
     (\<forall>c \<in> set (checks w). snd c = Generated \<longrightarrow>
        (\<exists>l. last_auto_time w = Some l \<and> fst c \<le> l)) \<and>
     (\<forall>l. last_auto_time w = Some l \<longrightarrow> l \<le> now w)"

section \<open>Concrete inputs\<close>

text \<open>
  A frame of three records: one at 09:00 with total 7, two at 05:00 and 05:16 with totals
  5 and 2. The hours 5 and 9 share the maximum 7.
\<close>

definition example_frame :: dataframe where
  "example_frame =
     \<lparr>rows =
        [\<lparr>Date = 0, Time = 32400000000, Cars = 4, Bicycles = 2, Pedestrians = 1\<rparr>,
         \<lparr>Date = 0, Time = 18000000000, Cars = 3, Bicycles = 0, Pedestrians = 2\<rparr>,
         \<lparr>Date = 0, Time = 19000000000, Cars = 1, Bicycles = 1, Pedestrians = 0\<rparr>],
      time_dtype = Datetime64, Total = None, Hour = None\<rparr>"

text \<open>
  A frame of five records whose counts fit 64 bits and whose hourly totals do not: two
  records of \<open>2 ^ 62\<close> cars at 03:00 and 03:03, two more at 07:00 and 07:01, and one
  record of one car at 09:00. The hours 3 and 7 share the maximum total \<open>2 ^ 63\<close>.
\<close>

definition overflow_frame :: dataframe where
  "overflow_frame =
     \<lparr>rows =
        [\<lparr>Date = 0, Time = 10800000000, Cars = 4611686018427387904, Bicycles = 0,
          Pedestrians = 0\<rparr>,
         \<lparr>Date = 0, Time = 11000000000, Cars = 4611686018427387904, Bicycles = 0,
          Pedestrians = 0\<rparr>,
         \<lparr>Date = 0, Time = 25200000000, Cars = 4611686018427387904, Bicycles = 0,
          Pedestrians = 0\<rparr>,
         \<lparr>Date = 0, Time = 25300000000, Cars = 4611686018427387904, Bicycles = 0,
          Pedestrians = 0\<rparr>,
         \<lparr>Date = 0, Time = 32400000000, Cars = 1, Bicycles = 0, Pedestrians = 0\<rparr>],
      time_dtype = Datetime64, Total = None, Hour = None\<rparr>"

text \<open>
  A world at 10:00 of day 0 whose file holds one record; a quarter of a second passes
  between two readings of the clock.
\<close>

definition example_world :: world where
  "example_world =
     \<lparr>csv_file =
        Some [\<lparr>Date = 0, Time = Stamp 32400000000, Cars = 4, Bicycles = 2, Pedestrians = 1\<rparr>],
      now = 36000000000, ticks = (\<lambda>n. 250000), reads = 0,
      rand = (\<lambda>n. 7 * n + 3), draws = 0,
      last_auto_time = None, screen = [], checks = []\<rparr>"

text \<open>
  Two runs, one in which no button is pressed and one in which the clear button is, and
  three worlds for sessions of such runs. In the first world eleven seconds pass between
  the first two readings of the clock and a quarter of a second between all later ones.
  The second is the first with a \<open>Time\<close> cell in the file that is not a timestamp. In the
  third the clock is set back by eleven and a half seconds after its second reading, and
  eleven seconds pass between the fifth and the sixth.
\<close>

definition idle_inputs :: inputs where
  "idle_inputs = \<lparr>cars_input = 0, bicycles_input = 0, pedestrians_input = 0,
                   record_button = False, clear_button = False\<rparr>"

definition clear_inputs :: inputs where
  "clear_inputs = idle_inputs\<lparr>clear_button := True\<rparr>"

definition example_session_world :: world where
  "example_session_world =
     example_world\<lparr>ticks := (\<lambda>n. if n = 0 then 11000000 else 250000)\<rparr>"

definition example_malformed_world :: world where
  "example_malformed_world =
     example_session_world
       \<lparr>csv_file :=
          Some [\<lparr>Date = 0, Time = Malformed, Cars = 4, Bicycles = 2, Pedestrians = 1\<rparr>]\<rparr>"

definition example_stepback_world :: world where
  "example_stepback_world =
     example_world
       \<lparr>ticks := (\<lambda>n. if n = 0 then 11000000 else if n = 1 then - 11500000
                       else if n = 4 then 11000000 else 0)\<rparr>"

section \<open>The record store: load, append, clear\<close>










text \<open>
  C5. Whatever the store held (also a file that cannot be loaded), \<open>clear_data\<close> followed
  by \<open>load_data\<close> returns a frame without rows.
\<close>

theorem clear_then_load:
  "fst (load_data (clear_data w)) = Inr empty_frame \<and> rows empty_frame = []"
  by (simp add: clear_data_def os_path_exists_def os_remove_def st_def load_data_def
      read_csv_def empty_frame_def)

text \<open>
  C6. When there is no file, \<open>load_data\<close> does not fail: it returns the frame without rows
  and leaves a file that holds the header only; nothing else of the world changes.
\<close>

theorem load_data_missing:
  assumes "csv_file w = None"
  shows "load_data w = (Inr empty_frame, w\<lparr>csv_file := Some []\<rparr>) \<and> rows empty_frame = []"
  using assms by (simp add: load_data_def read_csv_def to_csv_def empty_frame_def)

theorem load_data_missing_witness:
  "csv_file (example_world\<lparr>csv_file := None\<rparr>) = None \<and>
   load_data (example_world\<lparr>csv_file := None\<rparr>) =
     (Inr empty_frame, example_world\<lparr>csv_file := Some []\<rparr>)"
  using load_data_missing [of "example_world\<lparr>csv_file := None\<rparr>"] by simp

text \<open>
  C7. When there is no file, \<open>clear_data\<close> does not fail: it reports the informational
  message ``No data file found to delete.'' and changes nothing else, so there is still no
  file. In every world there is no file after \<open>clear_data\<close>, and a second \<open>clear_data\<close>
  leaves the store as the first left it.
\<close>

theorem clear_data_idempotent:
  "(csv_file w = None \<longrightarrow>
      clear_data w = w\<lparr>screen := screen w @ [St_info (Lit ''No data file found to delete.'')]\<rparr>) \<and>
   csv_file (clear_data w) = None \<and>
   csv_file (clear_data (clear_data w)) = csv_file (clear_data w)"
  by (simp add: clear_data_def os_path_exists_def os_remove_def st_def)

theorem clear_data_idempotent_witness:
  "csv_file (clear_data example_world) = None \<and>
   clear_data (clear_data example_world) =
     (clear_data example_world)
       \<lparr>screen := screen (clear_data example_world) @
                   [St_info (Lit ''No data file found to delete.'')]\<rparr>"
  using clear_data_idempotent [of "clear_data example_world"]
    clear_data_idempotent [of example_world] by simp

section \<open>The aggregator: peak hour\<close>

lemma first_max_mem: "first_max b kvs \<in> set (b # kvs)"
  by (induction kvs arbitrary: b) (simp, force)

lemma first_max_ge: "kv \<in> set (b # kvs) \<Longrightarrow> sint (snd kv) \<le> sint (snd (first_max b kvs))"
proof (induction kvs arbitrary: b kv)
  case Nil
  then show ?case by simp
next
  case (Cons x kvs)
  let ?b = "if int64_less (snd b) (snd x) then x else b"
  have step: "sint (snd y) \<le> sint (snd (first_max ?b kvs))" if "y \<in> set (?b # kvs)" for y
    using Cons.IH that by blast
  have "sint (snd b) \<le> sint (snd ?b)" and "sint (snd x) \<le> sint (snd ?b)"
    by (simp_all add: int64_less_def)
  moreover have "sint (snd ?b) \<le> sint (snd (first_max ?b kvs))" by (rule step) simp
  ultimately have "sint (snd b) \<le> sint (snd (first_max ?b kvs))"
    "sint (snd x) \<le> sint (snd (first_max ?b kvs))"
    by linarith+
  moreover have "sint (snd kv) \<le> sint (snd (first_max ?b kvs))" if "kv \<in> set kvs"
    using step [of kv] that by simp
  ultimately show ?case using Cons.prems by auto
qed

text \<open>On ascending keys, the entry the scan keeps has the least key among the maxima.\<close>

lemma first_max_first:
  "sorted (map fst (b # kvs)) \<Longrightarrow> kv \<in> set (b # kvs) \<Longrightarrow>
   snd kv = snd (first_max b kvs) \<Longrightarrow> fst (first_max b kvs) \<le> fst kv"
proof (induction kvs arbitrary: b kv)
  case Nil
  then show ?case by simp
next
  case (Cons x kvs)
  let ?b = "if int64_less (snd b) (snd x) then x else b"
  let ?r = "first_max ?b kvs"
  have res: "first_max b (x # kvs) = ?r" by simp
  have srt: "sorted (map fst (?b # kvs))" using Cons.prems(1) by auto
  have bx: "fst b \<le> fst x" using Cons.prems(1) by simp
  have ge: "sint (snd ?b) \<le> sint (snd ?r)" by (rule first_max_ge) simp
  have eqv: "snd kv = snd ?r" using Cons.prems(3) by simp
  consider (kept) "kv \<in> set (?b # kvs)" | (dropped) "kv \<notin> set (?b # kvs)" by blast
  then have "fst ?r \<le> fst kv"
  proof cases
    case kept
    then show ?thesis using Cons.IH [OF srt kept eqv] by simp
  next
    case dropped
    show ?thesis
    proof (cases "int64_less (snd b) (snd x)")
      case True
      with dropped Cons.prems(2) have "kv = b" by auto
      with True ge eqv show ?thesis by (simp add: int64_less_def)
    next
      case False
      with dropped Cons.prems(2) have kvx: "kv = x" by auto
      from False ge eqv kvx have "sint (snd b) = sint (snd ?r)" by (simp add: int64_less_def)
      then have beq: "snd b = snd ?r" by (rule signed_word_eqI)
      have bin: "b \<in> set (?b # kvs)" using False by simp
      have "fst ?r \<le> fst b" by (rule Cons.IH [OF srt bin beq])
      with bx kvx show ?thesis by simp
    qed
  qed
  with res show ?case by simp
qed

lemma fold_max_first_max: "fold int64_max (map snd kvs) (snd b) = snd (first_max b kvs)"
proof (induction kvs arbitrary: b)
  case Nil
  then show ?case by simp
next
  case (Cons x kvs)
  have "int64_max (snd x) (snd b) = snd (if int64_less (snd b) (snd x) then x else b)"
    by (simp add: int64_max_def)
  then show ?case using Cons.IH [of "if int64_less (snd b) (snd x) then x else b"] by simp
qed

lemma group_sum_rows:
  "sum_list (map snd (filter (\<lambda>kv. fst kv = k) (zip (map f rs) (map g rs)))) =
   sum_list (map g (filter (\<lambda>r. f r = k) rs))"
  by (induction rs) simp_all

lemma groupby_sum_rows:
  "groupby_sum (zip (map f rs) (map g rs)) =
   map (\<lambda>k. (k, sum_list (map g (filter (\<lambda>r. f r = k) rs)))) (sort (remdups (map f rs)))"
  by (simp add: groupby_sum_def group_sum_rows)

text \<open>The int64 sum of the int64 totals is the sum of the integer totals, wrapped.\<close>

lemma sum_list_int64:
  "sum_list (map (\<lambda>r. Cars r + Bicycles r + Pedestrians r) rs) =
   (word_of_int (sum_list (map record_total rs)) :: int64)"
  by (induction rs) (simp_all add: record_total_def)

lemma hourly_sorted: "sorted (map fst (hourly df))"
  by (simp add: hourly_def comp_def)

lemma hourly_entry:
  "kv \<in> set (hourly df) \<longleftrightarrow>
     fst kv \<in> hours_present df \<and> snd kv = word_of_int (hour_total df (fst kv))"
  by (cases kv) (auto simp: hourly_def hours_present_def)

lemma hourly_Nil: "hourly df = [] \<longleftrightarrow> rows df = []"
  by (simp add: hourly_def flip: set_empty)

text \<open>
  On a datetime frame, the Series \<open>analyze_data\<close> computes is \<open>hourly\<close>: the hourly totals of
  the specification, wrapped to 64 bits, in ascending order of the hours.
\<close>

lemma analyze_data_Datetime64:
  "time_dtype df = Datetime64 \<Longrightarrow>
   analyze_data df =
     (case idxmax (hourly df) of
        Inl e \<Rightarrow> Inl e
      | Inr peak_hour \<Rightarrow> Inr (hourly df, peak_hour, series_max (hourly df)),
      df\<lparr>Total := Some (map (\<lambda>r. Cars r + Bicycles r + Pedestrians r) (rows df)),
         Hour := Some (map record_hour (rows df))\<rparr>)"
  unfolding analyze_data_def dt_hour_def Let_def hourly_def hour_total_def
    record_hour_def [abs_def]
  by (simp add: groupby_sum_rows sum_list_int64 split: sum.split)

text \<open>An hourly total that fits 64 bits is the value of its int64 sum.\<close>

lemma sint_hour_total:
  "- (2 ^ 63) \<le> hour_total df h \<Longrightarrow> hour_total df h < 2 ^ 63 \<Longrightarrow>
   sint (word_of_int (hour_total df h) :: int64) = hour_total df h"
  by (simp add: sint_sbintrunc' signed_take_bit_int_eq_self)

text \<open>
  What \<open>analyze_data\<close> returns on every datetime frame with at least one row, whether the
  sums wrap or not: the peak is the first maximum of the int64 hourly sums, read as signed
  values, in ascending order of the hours.
\<close>

lemma peak_hour_int64:
  assumes "rows df \<noteq> []" and "time_dtype df = Datetime64"
  shows "\<exists>ph pt df'.
           analyze_data df = (Inr (hourly df, ph, Some pt), df') \<and>
           ph \<in> hours_present df \<and> pt = word_of_int (hour_total df ph) \<and>
           (\<forall>h \<in> hours_present df. sint (word_of_int (hour_total df h) :: int64) \<le> sint pt) \<and>
           (\<forall>h \<in> hours_present df. (word_of_int (hour_total df h) :: int64) = pt \<longrightarrow> ph \<le> h)"
proof -
  from assms(1) obtain b kvs where hb: "hourly df = b # kvs"
    using hourly_Nil [of df] by (cases "hourly df") auto
  define r where "r = first_max b kvs"
  have rin: "r \<in> set (hourly df)" unfolding r_def hb by (rule first_max_mem)
  then have rh: "fst r \<in> hours_present df" and rw: "snd r = word_of_int (hour_total df (fst r))"
    by (simp_all add: hourly_entry)
  have le: "sint (word_of_int (hour_total df h) :: int64) \<le> sint (snd r)"
    if "h \<in> hours_present df" for h
  proof -
    from that have "(h, word_of_int (hour_total df h)) \<in> set (b # kvs)"
      by (simp add: hourly_entry flip: hb)
    from first_max_ge [OF this] show ?thesis by (simp add: r_def)
  qed
  have first: "fst r \<le> h"
    if "h \<in> hours_present df" "(word_of_int (hour_total df h) :: int64) = snd r" for h
  proof -
    from that(1) have "(h, word_of_int (hour_total df h)) \<in> set (b # kvs)"
      by (simp add: hourly_entry flip: hb)
    moreover have "sorted (map fst (b # kvs))" using hourly_sorted [of df] by (simp add: hb)
    ultimately show ?thesis
      using first_max_first [of b kvs "(h, word_of_int (hour_total df h))"] that(2)
      by (simp add: r_def)
  qed
  have "analyze_data df = (Inr (hourly df, fst r, Some (snd r)),
      df\<lparr>Total := Some (map (\<lambda>r. Cars r + Bicycles r + Pedestrians r) (rows df)),
         Hour := Some (map record_hour (rows df))\<rparr>)"
    by (simp add: analyze_data_Datetime64 [OF assms(2)] hb idxmax_def series_max_def
        fold_max_first_max r_def)
  with rh rw le first show ?thesis by blast
qed

text \<open>
  C2. On every datetime frame with at least one row whose hourly totals all fit 64 bits,
  \<open>analyze_data\<close> returns; the peak total is the maximum of the hourly totals, and the peak
  hour is the least of the hours whose total is that maximum: when two or more hours
  share the maximum, the lowest hour is returned.
\<close>

theorem peak_hour_lowest_tied:
  assumes "rows df \<noteq> []" and "time_dtype df = Datetime64"
    and fits: "\<forall>h \<in> hours_present df. - (2 ^ 63) \<le> hour_total df h \<and> hour_total df h < 2 ^ 63"
  shows "\<exists>tbh ph pt df'.
           analyze_data df = (Inr (tbh, ph, Some pt), df') \<and>
           sint pt = Max (hour_total df ` hours_present df) \<and>
           ph = Min {h \<in> hours_present df. hour_total df h = sint pt}"
proof -
  have fin: "finite (hours_present df)" by (simp add: hours_present_def)
  have val: "sint (word_of_int (hour_total df h) :: int64) = hour_total df h"
    if "h \<in> hours_present df" for h
    using fits that by (intro sint_hour_total) auto
  from peak_hour_int64 [OF assms(1,2)] obtain ph pt df' where
    res: "analyze_data df = (Inr (hourly df, ph, Some pt), df')"
    and ph: "ph \<in> hours_present df" and pt: "pt = word_of_int (hour_total df ph)"
    and le: "\<forall>h \<in> hours_present df. sint (word_of_int (hour_total df h) :: int64) \<le> sint pt"
    and first: "\<forall>h \<in> hours_present df. (word_of_int (hour_total df h) :: int64) = pt \<longrightarrow> ph \<le> h"
    by blast
  have pv: "sint pt = hour_total df ph" using val [OF ph] pt by simp
  have le': "hour_total df h \<le> sint pt" if "h \<in> hours_present df" for h
    using le that val [OF that] by auto
  have first': "ph \<le> h" if "h \<in> hours_present df" "hour_total df h = sint pt" for h
  proof -
    have "(word_of_int (hour_total df h) :: int64) = pt" using that(2) by simp
    with first that(1) show ?thesis by blast
  qed
  have "sint pt = Max (hour_total df ` hours_present df)"
    using fin ph pv le' by (intro Max_eqI [symmetric]) auto
  moreover have "ph = Min {h \<in> hours_present df. hour_total df h = sint pt}"
    using fin ph pv first' by (intro Min_eqI [symmetric]) auto
  ultimately show ?thesis using res by blast
qed

theorem peak_hour_lowest_tied_witness:
  "rows example_frame \<noteq> [] \<and> time_dtype example_frame = Datetime64 \<and>
   hours_present example_frame = {5, 9} \<and>
   hour_total example_frame 5 = 7 \<and> hour_total example_frame 9 = 7 \<and>
   fst (analyze_data example_frame) = Inr ([(5, 7), (9, 7)], 5, Some 7) \<and>
   Max (hour_total example_frame ` hours_present example_frame) = 7 \<and>
   Min {h \<in> hours_present example_frame. hour_total example_frame h = 7} = 5"
proof -
  have h1: "rows example_frame \<noteq> []" and h2: "time_dtype example_frame = Datetime64"
    by (simp_all add: example_frame_def)
  have hp: "hours_present example_frame = {5, 9}"
    by (auto simp: hours_present_def example_frame_def record_hour_def hour_of_def)
  have ht: "hour_total example_frame 5 = 7" "hour_total example_frame 9 = 7"
    by (simp_all add: hour_total_def example_frame_def record_hour_def hour_of_def
        record_total_def)
  have h3: "\<forall>h \<in> hours_present example_frame.
      - (2 ^ 63) \<le> hour_total example_frame h \<and> hour_total example_frame h < 2 ^ 63"
    by (simp add: hp ht)
  have ev: "fst (analyze_data example_frame) = Inr ([(5, 7), (9, 7)], 5, Some 7)"
    by (simp add: analyze_data_def example_frame_def dt_hour_def hour_of_def Let_def
        groupby_sum_def idxmax_def series_max_def int64_less_def int64_max_def)
  from peak_hour_lowest_tied [OF h1 h2 h3] ev h1 h2 hp ht show ?thesis by auto
qed

text \<open>
  Without the bound the statement of C2 fails. In \<open>overflow_frame\<close> the hours 3 and 7 share
  the maximum total \<open>2 ^ 63\<close>, so the lowest of the tied hours is 3; the int64 sums of
  these hours wrap to \<open>- 2 ^ 63\<close>, and \<open>analyze_data\<close> returns the hour 9, whose total is 1.
\<close>

theorem peak_hour_lowest_tied_counterexample:
  "rows overflow_frame \<noteq> [] \<and> time_dtype overflow_frame = Datetime64 \<and>
   hours_present overflow_frame = {3, 7, 9} \<and>
   hour_total overflow_frame 3 = 2 ^ 63 \<and> hour_total overflow_frame 7 = 2 ^ 63 \<and>
   hour_total overflow_frame 9 = 1 \<and>
   Max (hour_total overflow_frame ` hours_present overflow_frame) = 2 ^ 63 \<and>
   Min {h \<in> hours_present overflow_frame. hour_total overflow_frame h = 2 ^ 63} = 3 \<and>
   fst (analyze_data overflow_frame) =
     Inr ([(3, word_of_int (2 ^ 63)), (7, word_of_int (2 ^ 63)), (9, 1)], 9, Some 1) \<and>
   sint (word_of_int (2 ^ 63) :: int64) = - (2 ^ 63)"
proof -
  have hp: "hours_present overflow_frame = {3, 7, 9}"
    by (auto simp: hours_present_def overflow_frame_def record_hour_def hour_of_def)
  have ht: "hour_total overflow_frame 3 = 2 ^ 63" "hour_total overflow_frame 7 = 2 ^ 63"
    "hour_total overflow_frame 9 = 1"
    by (simp_all add: hour_total_def overflow_frame_def record_hour_def hour_of_def
        record_total_def)
  have mx: "Max (hour_total overflow_frame ` hours_present overflow_frame) = 2 ^ 63"
    by (simp add: hp ht)
  have "{h \<in> hours_present overflow_frame. hour_total overflow_frame h = 2 ^ 63} = {3, 7}"
    using ht by (auto simp: hp)
  then have mn: "Min {h \<in> hours_present overflow_frame. hour_total overflow_frame h = 2 ^ 63} = 3"
    by simp
  have ev: "fst (analyze_data overflow_frame) =
     Inr ([(3, word_of_int (2 ^ 63)), (7, word_of_int (2 ^ 63)), (9, 1)], 9, Some 1)"
    by (simp add: analyze_data_def overflow_frame_def dt_hour_def hour_of_def Let_def
        groupby_sum_def idxmax_def series_max_def int64_less_def int64_max_def)
  have sg: "sint (word_of_int (2 ^ 63) :: int64) = - (2 ^ 63)"
    by (simp add: sint_sbintrunc')
  show ?thesis
    using hp ht mx mn ev sg by (simp add: overflow_frame_def)
qed

section \<open>The aggregator: empty input, repetition, effect on the frame\<close>


text \<open>
  Below the batch size the last part of \<open>main\<close> always returns normally: the analysis is
  not reached.
\<close>

lemma main_show_below_batch:
  "length (rows df) < RECORDS_PER_ANALYSIS \<Longrightarrow> fst (main_show df w) = Returns"
  by (simp add: main_show_def Let_def)




text \<open>
  C9. A second call of \<open>analyze_data\<close>, on the frame as the first call left it, gives the
  same outcome (the same hourly Series, peak hour and peak total, or the same error) and
  leaves the frame as it is.
\<close>

theorem analyze_data_idempotent: "analyze_data (snd (analyze_data df)) = analyze_data df"
  by (simp add: analyze_data_def dt_hour_def Let_def split: dtype.split sum.split)

text \<open>The int64 sum of the three counts of a row is its integer total, wrapped to 64 bits.\<close>

lemma int64_total:
  "Cars r + Bicycles r + Pedestrians r = (word_of_int (record_total r) :: int64)"
  by (simp add: record_total_def)

text \<open>
  C10. When \<open>analyze_data\<close> returns, the frame it was given has the column \<open>Total\<close> (for each
  row the int64 sum of its three counts, which is their integer sum wrapped to 64 bits)
  and the column \<open>Hour\<close> (the hour of each row's timestamp); nothing else of the frame has
  changed: the rows, with their five columns and their order, are those of the input.
\<close>

theorem analyze_data_mutates:
  assumes "analyze_data df = (Inr res, df')"
  shows "df' = df\<lparr>Total := Some (map (\<lambda>r. Cars r + Bicycles r + Pedestrians r) (rows df)),
                   Hour := Some (map (\<lambda>r. hour_of (Time r)) (rows df))\<rparr> \<and>
         Total df' = Some (map (\<lambda>r. word_of_int (record_total r)) (rows df)) \<and>
         rows df' = rows df \<and> time_dtype df' = time_dtype df"
  using assms
  by (auto simp: analyze_data_def dt_hour_def Let_def int64_total
      split: dtype.splits sum.splits)

theorem analyze_data_mutates_witness:
  "analyze_data example_frame =
     (Inr ([(5, 7), (9, 7)], 5, Some 7),
      example_frame\<lparr>Total := Some [7, 5, 2], Hour := Some [9, 5, 5]\<rparr>)"
proof -
  have "fst (analyze_data example_frame) = Inr ([(5, 7), (9, 7)], 5, Some 7)"
    by (simp add: analyze_data_def example_frame_def dt_hour_def hour_of_def Let_def
        groupby_sum_def idxmax_def series_max_def int64_less_def int64_max_def)
  then have ev: "analyze_data example_frame =
      (Inr ([(5, 7), (9, 7)], 5, Some 7), snd (analyze_data example_frame))"
    by (simp add: prod_eq_iff)
  have "snd (analyze_data example_frame) =
      example_frame\<lparr>Total := Some [7, 5, 2], Hour := Some [9, 5, 5]\<rparr>"
    using analyze_data_mutates [OF ev] by (simp add: example_frame_def hour_of_def)
  with ev show ?thesis by simp
qed

section \<open>The page: runs within the int64 columns\<close>

lemma add_entry_within:
  assumes "- (2 ^ 63) \<le> c" "c < 2 ^ 63" "- (2 ^ 63) \<le> b" "b < 2 ^ 63"
    "- (2 ^ 63) \<le> p" "p < 2 ^ 63"
  shows "fst (add_entry c b p w) \<noteq> Beyond_int64"
  using assms
  by (cases "load_data w")
    (auto simp: add_entry_def datetime_now_def int64_of_def Let_def split: sum.split)

lemma randint_range: "a \<le> b \<Longrightarrow> a \<le> fst (randint a b w) \<and> fst (randint a b w) \<le> b"
proof -
  assume "a \<le> b"
  then have "0 < b - a + 1" by simp
  then have "0 \<le> int (rand w (draws w)) mod (b - a + 1)"
    "int (rand w (draws w)) mod (b - a + 1) < b - a + 1"
    by (rule pos_mod_sign, rule pos_mod_bound)
  then show ?thesis unfolding randint_def fst_conv by linarith
qed

lemma auto_generate_data_within: "fst (auto_generate_data w) \<noteq> Beyond_int64"
proof -
  obtain c w1 where r1: "randint 0 20 w = (c, w1)" by (cases "randint 0 20 w")
  obtain b w2 where r2: "randint 0 15 w1 = (b, w2)" by (cases "randint 0 15 w1")
  obtain p w3 where r3: "randint 0 30 w2 = (p, w3)" by (cases "randint 0 30 w2")
  have "0 \<le> c \<and> c \<le> 20" using randint_range [of 0 20 w] r1 by simp
  moreover have "0 \<le> b \<and> b \<le> 15" using randint_range [of 0 15 w1] r2 by simp
  moreover have "0 \<le> p \<and> p \<le> 30" using randint_range [of 0 30 w2] r3 by simp
  ultimately have "fst (add_entry c b p w3) \<noteq> Beyond_int64"
    by (intro add_entry_within) auto
  then show ?thesis
    by (cases "add_entry c b p w3"; cases "fst (add_entry c b p w3)")
      (auto simp: auto_generate_data_def r1 r2 r3)
qed

lemma main_auto_within: "fst (main_auto w) \<noteq> Beyond_int64"
proof -
  obtain last w1 where l: "(case last_auto_time w of
               None \<Rightarrow> (let (t0, w') = datetime_now w in (t0, w'\<lparr>last_auto_time := Some t0\<rparr>))
             | Some l \<Rightarrow> (l, w)) = (last, w1)" by fastforce
  obtain t w2 where n: "datetime_now w1 = (t, w2)" by (cases "datetime_now w1")
  obtain res w3 where g: "auto_generate_data w2 = (res, w3)" by (cases "auto_generate_data w2")
  obtain t' w4 where n': "datetime_now w3 = (t', w4)" by (cases "datetime_now w3")
  have "res \<noteq> Beyond_int64" using auto_generate_data_within [of w2] g by simp
  then show ?thesis by (cases res) (simp_all add: main_auto_def l n g n')
qed

text \<open>
  A run of \<open>main\<close> whose three inputs fit 64 bits stays within the int64 columns, whatever
  the world: the counts that \<open>auto_generate_data\<close> draws always fit.
\<close>

lemma main_within_int64:
  assumes "- (2 ^ 63) \<le> cars_input inp" "cars_input inp < 2 ^ 63"
    "- (2 ^ 63) \<le> bicycles_input inp" "bicycles_input inp < 2 ^ 63"
    "- (2 ^ 63) \<le> pedestrians_input inp" "pedestrians_input inp < 2 ^ 63"
  shows "fst (main inp w) \<noteq> Beyond_int64"
proof -
  let ?c = "cars_input inp" and ?b = "bicycles_input inp" and ?p = "pedestrians_input inp"
  let ?w3 = "alert_shown inp w"
  obtain res w4 where a: "add_entry ?c ?b ?p ?w3 = (res, w4)" by (cases "add_entry ?c ?b ?p ?w3")
  have ra: "res \<noteq> Beyond_int64" using add_entry_within [OF assms, of ?w3] a by simp
  have unf: "main_entry inp w =
      (case (if record_button inp
               then (case add_entry ?c ?b ?p ?w3 of
                       (Returns, w4) \<Rightarrow>
                         (Returns, st (St_success (Manual_recorded ?c ?b ?p)) w4)
                     | (r, w4) \<Rightarrow> (r, w4))
               else (Returns, ?w3)) of
           (Returns, w5) \<Rightarrow> (Returns, if clear_button inp then clear_data w5 else w5)
         | (r, w5) \<Rightarrow> (r, w5))"
    by (simp add: main_entry_def alert_shown_def Let_def)
  have e: "fst (main_entry inp w) \<noteq> Beyond_int64"
    unfolding unf using ra by (cases res) (simp_all add: a)
  obtain r1 w1 where e1: "main_entry inp w = (r1, w1)" by (cases "main_entry inp w")
  obtain r2 w2 where a2: "main_auto w1 = (r2, w2)" by (cases "main_auto w1")
  obtain r3 w3 where l3: "load_data w2 = (r3, w3)" by (cases "load_data w2")
  have n1: "r1 \<noteq> Beyond_int64" using e e1 by simp
  have n2: "r2 \<noteq> Beyond_int64" using main_auto_within [of w1] a2 by simp
  have n4: "fst (main_show df w3) \<noteq> Beyond_int64" for df
    by (cases "analyze_data df")
      (auto simp: main_show_def Let_def split: sum.split prod.split)
  show ?thesis
    using n1 n2 n4 by (cases r1; cases r2; cases r3) (simp_all add: main_def e1 a2 l3)
qed

section \<open>The page: the high-traffic alert\<close>

lemma adds_no_error_same: "screen w' = screen w \<Longrightarrow> adds_no_error w w'"
  by (simp add: adds_no_error_def)

lemma adds_no_error_trans:
  "adds_no_error w w' \<Longrightarrow> adds_no_error w' w'' \<Longrightarrow> adds_no_error w w''"
  by (auto simp: adds_no_error_def)

lemma adds_no_error_st: "\<not> is_st_error c \<Longrightarrow> adds_no_error w w' \<Longrightarrow> adds_no_error w (st c w')"
  by (auto simp: adds_no_error_def st_def)

lemma screen_load_data: "screen (snd (load_data w)) = screen w"
  by (simp add: load_data_def read_csv_def to_csv_def split: option.split sum.split error.split)

lemma screen_add_entry: "screen (snd (add_entry c b p w)) = screen w"
  using screen_load_data [of w]
  by (cases "load_data w")
    (auto simp: add_entry_def datetime_now_def to_csv_def Let_def
      split: sum.split option.split)

lemma screen_clear_data: "adds_no_error w (clear_data w)"
  by (simp add: clear_data_def adds_no_error_st adds_no_error_same is_st_error_def os_remove_def)

lemma screen_auto_generate_data: "adds_no_error w (snd (auto_generate_data w))"
proof -
  obtain c w1 where r1: "randint 0 20 w = (c, w1)" by (cases "randint 0 20 w")
  obtain b w2 where r2: "randint 0 15 w1 = (b, w2)" by (cases "randint 0 15 w1")
  obtain p w3 where r3: "randint 0 30 w2 = (p, w3)" by (cases "randint 0 30 w2")
  have s3: "screen w3 = screen w" using r1 r2 r3 by (auto simp: randint_def)
  obtain res w4 where a: "add_entry c b p w3 = (res, w4)" by (cases "add_entry c b p w3")
  have s4: "screen w4 = screen w" using screen_add_entry [of c b p w3] a s3 by simp
  then have "adds_no_error w w4" by (rule adds_no_error_same)
  then show ?thesis
    by (cases res) (simp_all add: auto_generate_data_def r1 r2 r3 a adds_no_error_st is_st_error_def)
qed

lemma screen_main_auto: "adds_no_error w (snd (main_auto w))"
proof -
  obtain last w1 where l: "(case last_auto_time w of
               None \<Rightarrow> (let (t0, w') = datetime_now w in (t0, w'\<lparr>last_auto_time := Some t0\<rparr>))
             | Some l \<Rightarrow> (l, w)) = (last, w1)" by fastforce
  have s1: "screen w1 = screen w" using l by (auto simp: datetime_now_def split: option.splits)
  obtain t w2 where n: "datetime_now w1 = (t, w2)" by (cases "datetime_now w1")
  have s2: "screen w2 = screen w" using n s1 by (auto simp: datetime_now_def)
  obtain res w3 where g: "auto_generate_data w2 = (res, w3)" by (cases "auto_generate_data w2")
  have s3: "adds_no_error w w3" using screen_auto_generate_data [of w2] g s2
    by (simp add: adds_no_error_def)
  obtain t' w4 where n': "datetime_now w3 = (t', w4)" by (cases "datetime_now w3")
  have s4: "screen w4 = screen w3" using n' by (auto simp: datetime_now_def)
  have "screen (snd (main_auto w)) = screen w \<or> screen (snd (main_auto w)) = screen w3"
    by (cases res) (simp_all add: main_auto_def l n g n' s2 s4)
  with s3 show ?thesis by (auto simp: adds_no_error_def)
qed

lemma screen_main_show: "adds_no_error w (snd (main_show df w))"
  by (cases "analyze_data df")
   (auto simp: main_show_def Let_def adds_no_error_st adds_no_error_same is_st_error_def
      split: sum.split prod.split)

lemma screen_main_entry: "adds_no_error (alert_shown inp w) (snd (main_entry inp w))"
proof -
  let ?w3 = "alert_shown inp w"
  let ?c = "cars_input inp" and ?b = "bicycles_input inp" and ?p = "pedestrians_input inp"
  obtain res w4 where a: "add_entry ?c ?b ?p ?w3 = (res, w4)" by (cases "add_entry ?c ?b ?p ?w3")
  have s4: "adds_no_error ?w3 w4"
    using screen_add_entry [of ?c ?b ?p ?w3] a by (simp add: adds_no_error_same)
  have s5: "adds_no_error ?w3 (st (St_success (Manual_recorded ?c ?b ?p)) w4)"
    using s4 by (simp add: adds_no_error_st is_st_error_def)
  have clr: "adds_no_error ?w3 (clear_data v)" if "adds_no_error ?w3 v" for v
    using that screen_clear_data [of v] by (rule adds_no_error_trans)
  have refl: "adds_no_error ?w3 ?w3" by (simp add: adds_no_error_same)
  have unf: "main_entry inp w =
      (case (if record_button inp
               then (case add_entry ?c ?b ?p ?w3 of
                       (Returns, w4) \<Rightarrow>
                         (Returns, st (St_success (Manual_recorded ?c ?b ?p)) w4)
                     | (r, w4) \<Rightarrow> (r, w4))
               else (Returns, ?w3)) of
           (Returns, w5) \<Rightarrow> (Returns, if clear_button inp then clear_data w5 else w5)
         | (r, w5) \<Rightarrow> (r, w5))"
    by (simp add: main_entry_def alert_shown_def Let_def)
  show ?thesis
    unfolding unf using s4 s5 clr refl by (cases res) (simp_all add: a)
qed

lemma screen_main: "adds_no_error (alert_shown inp w) (snd (main inp w))"
proof -
  let ?w3 = "alert_shown inp w"
  obtain r1 w1 where e: "main_entry inp w = (r1, w1)" by (cases "main_entry inp w")
  obtain r2 w2 where a: "main_auto w1 = (r2, w2)" by (cases "main_auto w1")
  obtain r3 w3 where l: "load_data w2 = (r3, w3)" by (cases "load_data w2")
  have s1: "adds_no_error ?w3 w1" using screen_main_entry [of inp w] e by simp
  have s2: "adds_no_error ?w3 w2"
    using s1 screen_main_auto [of w1] a by (auto intro: adds_no_error_trans)
  have s3: "adds_no_error ?w3 w3"
    using s2 screen_load_data [of w2] l by (auto simp: adds_no_error_def)
  have s4: "adds_no_error ?w3 (snd (main_show df w3))" for df
    using s3 screen_main_show [of w3 df] by (rule adds_no_error_trans)
  show ?thesis
    using s1 s2 s3 s4 by (cases r1; cases r2; cases r3) (simp_all add: main_def e a l)
qed

text \<open>
  C8. In every run of \<open>main\<close>, in every world (whatever the file holds, and also when the
  run raises later), the calls of \<^verbatim>\<open>st.error\<close> that the run adds to the page are: the
  high-traffic alert with the sum of the three inputs, if that sum exceeds 50; none
  otherwise. So the alert is shown if and only if cars + bicycles + pedestrians > 50 for
  the entry in the widgets, and the stored records have no part in it.
\<close>

theorem high_traffic_alert_iff:
  "filter is_st_error (drop (length (screen w)) (screen (snd (main inp w)))) =
     (if cars_input inp + bicycles_input inp + pedestrians_input inp > 50
      then [St_error (High_traffic_alert
                        (cars_input inp + bicycles_input inp + pedestrians_input inp))]
      else [])"
proof -
  from screen_main [of inp w] obtain cs where
    cs: "screen (snd (main inp w)) = screen (alert_shown inp w) @ cs" "filter is_st_error cs = []"
    by (auto simp: adds_no_error_def)
  show ?thesis
    by (simp add: cs alert_shown_def st_def Let_def is_st_error_def HIGH_TRAFFIC_THRESHOLD_def)
qed

section \<open>The page: auto-generation\<close>

lemma timer_kept_refl: "timer_kept w w"
  by (simp add: timer_kept_def)

lemma timer_kept_trans: "timer_kept w w' \<Longrightarrow> timer_kept w' w'' \<Longrightarrow> timer_kept w w''"
  by (auto simp: timer_kept_def steady_def)

lemma timer_kept_st: "timer_kept w w' \<Longrightarrow> timer_kept w (st c w')"
  by (simp add: timer_kept_def st_def)

lemma timer_kept_datetime_now: "timer_kept w (snd (datetime_now w))"
  by (simp add: timer_kept_def datetime_now_def steady_def)

lemma timer_kept_load_data: "timer_kept w (snd (load_data w))"
  by (simp add: timer_kept_def load_data_def read_csv_def to_csv_def
      split: option.split sum.split error.split)

lemma timer_kept_add_entry: "timer_kept w (snd (add_entry c b p w))"
proof -
  obtain r w1 where l: "load_data w = (r, w1)" by (cases "load_data w")
  have k1: "timer_kept w w1" using timer_kept_load_data [of w] l by simp
  obtain d w2 where n2: "datetime_now w1 = (d, w2)" by (cases "datetime_now w1")
  obtain t w3 where n3: "datetime_now w2 = (t, w3)" by (cases "datetime_now w2")
  have k3: "timer_kept w w3"
    using k1 timer_kept_datetime_now [of w1] timer_kept_datetime_now [of w2] n2 n3
    by (auto intro: timer_kept_trans)
  have k4: "timer_kept w (to_csv rs w3)" for rs
    using k3 by (simp add: timer_kept_def to_csv_def)
  show ?thesis
    using k1 k3 k4
    by (cases r) (auto simp: add_entry_def l n2 n3 Let_def split: option.split)
qed

lemma timer_kept_clear_data: "timer_kept w (clear_data w)"
  by (simp add: clear_data_def timer_kept_def st_def os_remove_def)

lemma timer_kept_auto_generate_data: "timer_kept w (snd (auto_generate_data w))"
proof -
  obtain c w1 where r1: "randint 0 20 w = (c, w1)" by (cases "randint 0 20 w")
  obtain b w2 where r2: "randint 0 15 w1 = (b, w2)" by (cases "randint 0 15 w1")
  obtain p w3 where r3: "randint 0 30 w2 = (p, w3)" by (cases "randint 0 30 w2")
  have k3: "timer_kept w w3" using r1 r2 r3 by (auto simp: randint_def timer_kept_def)
  obtain res w4 where a: "add_entry c b p w3 = (res, w4)" by (cases "add_entry c b p w3")
  have k4: "timer_kept w w4"
    using k3 timer_kept_add_entry [of w3 c b p] a by (auto intro: timer_kept_trans)
  then show ?thesis
    by (cases res) (simp_all add: auto_generate_data_def r1 r2 r3 a timer_kept_st)
qed

lemma timer_kept_main_entry: "timer_kept w (snd (main_entry inp w))"
proof -
  let ?c = "cars_input inp" and ?b = "bicycles_input inp" and ?p = "pedestrians_input inp"
  let ?w3 = "alert_shown inp w"
  have k3: "timer_kept w ?w3"
    by (simp add: alert_shown_def Let_def timer_kept_st timer_kept_refl)
  obtain res w4 where a: "add_entry ?c ?b ?p ?w3 = (res, w4)" by (cases "add_entry ?c ?b ?p ?w3")
  have k4: "timer_kept w w4"
    using k3 timer_kept_add_entry [of ?w3 ?c ?b ?p] a by (auto intro: timer_kept_trans)
  have clr: "timer_kept w (clear_data v)" if "timer_kept w v" for v
    using that timer_kept_clear_data [of v] by (rule timer_kept_trans)
  have unf: "main_entry inp w =
      (case (if record_button inp
               then (case add_entry ?c ?b ?p ?w3 of
                       (Returns, w4) \<Rightarrow>
                         (Returns, st (St_success (Manual_recorded ?c ?b ?p)) w4)
                     | (r, w4) \<Rightarrow> (r, w4))
               else (Returns, ?w3)) of
           (Returns, w5) \<Rightarrow> (Returns, if clear_button inp then clear_data w5 else w5)
         | (r, w5) \<Rightarrow> (r, w5))"
    by (simp add: main_entry_def alert_shown_def Let_def)
  show ?thesis
    unfolding unf using k3 k4 clr by (cases res) (simp_all add: a timer_kept_st)
qed

lemma timer_kept_main_show: "timer_kept w (snd (main_show df w))"
  by (cases "analyze_data df")
    (auto simp: main_show_def Let_def timer_kept_st timer_kept_refl split: sum.split prod.split)

lemma timer_inv_kept: "timer_inv w \<Longrightarrow> timer_kept w w' \<Longrightarrow> timer_inv w'"
  by (fastforce simp: timer_inv_def timer_kept_def steady_def)

lemma spaced_snoc:
  "spaced (cs @ [x]) \<longleftrightarrow>
     spaced cs \<and>
     (snd x \<noteq> Not_due \<longrightarrow>
        (\<forall>c \<in> set cs. snd c = Generated \<longrightarrow>
           AUTO_INTERVAL_SECONDS * 1000000 < fst x - fst c))"
proof
  assume s: "spaced (cs @ [x])"
  have "spaced cs"
    unfolding spaced_def
  proof (intro allI impI)
    fix i j assume h: "i < j \<and> j < length cs \<and> snd (cs ! i) = Generated \<and> snd (cs ! j) \<noteq> Not_due"
    then have "(cs @ [x]) ! i = cs ! i" "(cs @ [x]) ! j = cs ! j" by (simp_all add: nth_append)
    with s h show "AUTO_INTERVAL_SECONDS * 1000000 < fst (cs ! j) - fst (cs ! i)"
      unfolding spaced_def by (metis length_append_singleton less_Suc_eq)
  qed
  moreover have "AUTO_INTERVAL_SECONDS * 1000000 < fst x - fst c"
    if "snd x \<noteq> Not_due" "c \<in> set cs" "snd c = Generated" for c
  proof -
    from that(2) obtain i where i: "i < length cs" "cs ! i = c" by (auto simp: in_set_conv_nth)
    then have "(cs @ [x]) ! i = c" "(cs @ [x]) ! length cs = x" by (simp_all add: nth_append)
    with s i that show ?thesis
      unfolding spaced_def by (metis length_append_singleton lessI)
  qed
  ultimately show "spaced cs \<and>
     (snd x \<noteq> Not_due \<longrightarrow>
        (\<forall>c \<in> set cs. snd c = Generated \<longrightarrow>
           AUTO_INTERVAL_SECONDS * 1000000 < fst x - fst c))" by blast
next
  assume a: "spaced cs \<and>
     (snd x \<noteq> Not_due \<longrightarrow>
        (\<forall>c \<in> set cs. snd c = Generated \<longrightarrow>
           AUTO_INTERVAL_SECONDS * 1000000 < fst x - fst c))"
  show "spaced (cs @ [x])"
    unfolding spaced_def
  proof (intro allI impI)
    fix i j
    assume h: "i < j \<and> j < length (cs @ [x]) \<and> snd ((cs @ [x]) ! i) = Generated \<and>
      snd ((cs @ [x]) ! j) \<noteq> Not_due"
    show "AUTO_INTERVAL_SECONDS * 1000000 < fst ((cs @ [x]) ! j) - fst ((cs @ [x]) ! i)"
    proof (cases "j < length cs")
      case True
      with h have "(cs @ [x]) ! i = cs ! i" "(cs @ [x]) ! j = cs ! j" by (simp_all add: nth_append)
      with a h True show ?thesis unfolding spaced_def by auto
    next
      case False
      with h have j: "j = length cs" and i: "i < length cs" by simp_all
      then have e: "(cs @ [x]) ! i = cs ! i" "(cs @ [x]) ! j = x" by (simp_all add: nth_append)
      have "cs ! i \<in> set cs" using i by simp
      with a h e show ?thesis by auto
    qed
  qed
qed

lemma timer_inv_main_auto:
  assumes inv: "timer_inv w"
  shows "timer_inv (snd (main_auto w))"
proof -
  have st: "steady w" using inv by (simp add: timer_inv_def)
  obtain last w1 where l: "(case last_auto_time w of
               None \<Rightarrow> (let (t0, w') = datetime_now w in (t0, w'\<lparr>last_auto_time := Some t0\<rparr>))
             | Some l \<Rightarrow> (l, w)) = (last, w1)" by fastforce
  have w1: "checks w1 = checks w" "last_auto_time w1 = Some last" "last \<le> now w1"
    "ticks w1 = ticks w"
    using l inv by (auto simp: datetime_now_def timer_inv_def steady_def split: option.splits)
  have st1: "steady w1" using st w1 by (simp add: steady_def)
  have old: "fst c \<le> last" if "c \<in> set (checks w)" "snd c = Generated" for c
  proof -
    from inv that obtain l' where l': "last_auto_time w = Some l'" "fst c \<le> l'"
      by (auto simp: timer_inv_def)
    with l show ?thesis by simp
  qed
  have sp: "spaced (checks w)" using inv by (simp add: timer_inv_def)
  obtain t w2 where n: "datetime_now w1 = (t, w2)" by (cases "datetime_now w1")
  have w2: "checks w2 = checks w" "last_auto_time w2 = Some last" "last \<le> t" "t \<le> now w2"
    "ticks w2 = ticks w"
    using n w1 st1 by (auto simp: datetime_now_def steady_def)
  have st2: "steady w2" using st w2 by (simp add: steady_def)
  obtain res w3 where g: "auto_generate_data w2 = (res, w3)" by (cases "auto_generate_data w2")
  have "timer_kept w2 w3" using timer_kept_auto_generate_data [of w2] g by simp
  with w2 st2 have w3: "checks w3 = checks w" "last_auto_time w3 = Some last" "t \<le> now w3"
    "ticks w3 = ticks w"
    by (auto simp: timer_kept_def)
  have st3: "steady w3" using st w3 by (simp add: steady_def)
  have i3: "timer_inv w3"
    using sp old w3 w2 st3 by (auto simp: timer_inv_def)
  obtain t' w4 where n': "datetime_now w3 = (t', w4)" by (cases "datetime_now w3")
  have w4: "checks w4 = checks w" "t \<le> t'" "t' \<le> now w4" "ticks w4 = ticks w"
    using n' w3 st3 by (auto simp: datetime_now_def steady_def)
  have st4: "steady w4" using st w4 by (simp add: steady_def)
  show ?thesis
  proof (cases "AUTO_INTERVAL_SECONDS * 1000000 < t - last")
    case False
    then have "snd (main_auto w) = w2\<lparr>checks := checks w2 @ [(t, Not_due)]\<rparr>"
      by (simp add: main_auto_def l n)
    moreover have "timer_inv (w2\<lparr>checks := checks w2 @ [(t, Not_due)]\<rparr>)"
      using sp old w2 st2 by (auto simp: timer_inv_def spaced_snoc steady_def)
    ultimately show ?thesis by simp
  next
    case True
    have far: "AUTO_INTERVAL_SECONDS * 1000000 < t - fst c"
      if "c \<in> set (checks w)" "snd c = Generated" for c
      using old [OF that] True by linarith
    show ?thesis
    proof (cases res)
      case (Raises e)
      with True have "snd (main_auto w) = w3\<lparr>checks := checks w3 @ [(t, Raised)]\<rparr>"
        by (simp add: main_auto_def l n g)
      moreover have "timer_inv (w3\<lparr>checks := checks w3 @ [(t, Raised)]\<rparr>)"
        using sp old far w3 w2 st3 by (auto simp: timer_inv_def spaced_snoc steady_def)
      ultimately show ?thesis by simp
    next
      case Beyond_int64
      with True have "snd (main_auto w) = w3" by (simp add: main_auto_def l n g)
      with i3 show ?thesis by simp
    next
      case Returns
      with True have "snd (main_auto w) =
          w4\<lparr>last_auto_time := Some t', checks := checks w4 @ [(t, Generated)]\<rparr>"
        by (simp add: main_auto_def l n g n')
      moreover have "timer_inv (w4\<lparr>last_auto_time := Some t',
          checks := checks w4 @ [(t, Generated)]\<rparr>)"
      proof -
        have "fst c \<le> t'" if "c \<in> set (checks w)" "snd c = Generated" for c
          using old [OF that] w2 w4 by linarith
        then show ?thesis
          using sp far w4 st4 by (auto simp: timer_inv_def spaced_snoc steady_def)
      qed
      ultimately show ?thesis by simp
    qed
  qed
qed

lemma timer_inv_main: "timer_inv w \<Longrightarrow> timer_inv (snd (main inp w))"
proof -
  assume inv: "timer_inv w"
  obtain r1 w1 where e: "main_entry inp w = (r1, w1)" by (cases "main_entry inp w")
  obtain r2 w2 where a: "main_auto w1 = (r2, w2)" by (cases "main_auto w1")
  obtain r3 w3 where l: "load_data w2 = (r3, w3)" by (cases "load_data w2")
  have i1: "timer_inv w1"
    using inv timer_kept_main_entry [of w inp] e by (auto intro: timer_inv_kept)
  have i2: "timer_inv w2" using timer_inv_main_auto [OF i1] a by simp
  have i3: "timer_inv w3"
    using i2 timer_kept_load_data [of w2] l by (auto intro: timer_inv_kept)
  have i4: "timer_inv (snd (main_show df w3))" for df
    using i3 timer_kept_main_show [of w3 df] by (rule timer_inv_kept)
  show ?thesis
    using i1 i2 i3 i4 by (cases r1; cases r2; cases r3) (simp_all add: main_def e a l)
qed

lemma timer_inv_session: "timer_inv w \<Longrightarrow> timer_inv (session inps w)"
proof (induction inps arbitrary: w)
  case Nil
  then show ?case by simp
next
  case (Cons inp inps)
  obtain r w' where m: "main inp w = (r, w')" by (cases "main inp w")
  have "timer_inv w'" using timer_inv_main [OF Cons.prems, of inp] m by simp
  then show ?case using Cons.IH [of w'] by (simp add: m)
qed

lemma timer_inv_fresh:
  "last_auto_time w = None \<Longrightarrow> checks w = [] \<Longrightarrow> \<forall>n. 0 \<le> ticks w n \<Longrightarrow> timer_inv w"
  by (simp add: timer_inv_def spaced_def steady_def)

text \<open>
  C4. In a session that starts with an empty session state, on a clock that is never set
  back, take two auto-generation tests, the second later in the session than the first
  and less than 10 seconds after it by the clock readings the tests compared. Then it is
  not the case that the first generated a record (its call of \<^verbatim>\<open>auto_generate_data\<close>
  returned) and the second was due: after a generation, no test within the interval
  triggers one.
\<close>

theorem auto_generation_spacing:
  assumes "last_auto_time w0 = None" and "checks w0 = []"
    and "\<forall>n. 0 \<le> ticks w0 n"
    and "i < j" and "j < length (checks (session inps w0))"
    and "fst (checks (session inps w0) ! j) - fst (checks (session inps w0) ! i)
           < 10 * 1000000"
  shows "\<not> (snd (checks (session inps w0) ! i) = Generated \<and>
            snd (checks (session inps w0) ! j) \<noteq> Not_due)"
proof -
  have "timer_inv (session inps w0)"
    using assms(1,2,3) by (intro timer_inv_session timer_inv_fresh)
  then have "spaced (checks (session inps w0))" by (simp add: timer_inv_def)
  with assms(4,5,6) show ?thesis
    unfolding spaced_def AUTO_INTERVAL_SECONDS_def by fastforce
qed

text \<open>The definitions that a run on a concrete world unfolds.\<close>

lemmas run_defs =
  main_def main_entry_def main_auto_def auto_generate_data_def add_entry_def
  load_data_def read_csv_def to_csv_def datetime_now_def randint_def st_def main_show_def
  clear_data_def os_path_exists_def os_remove_def int64_of_def
  RECORDS_PER_ANALYSIS_def AUTO_INTERVAL_SECONDS_def HIGH_TRAFFIC_THRESHOLD_def
  idle_inputs_def clear_inputs_def example_session_world_def example_malformed_world_def
  example_stepback_world_def example_world_def Let_def empty_frame_def set_Time_def

theorem auto_generation_spacing_witness:
  "last_auto_time example_session_world = None \<and> checks example_session_world = [] \<and>
   checks (session [idle_inputs, idle_inputs] example_session_world) =
     [(36011000000, Generated), (36012000000, Not_due)] \<and>
   \<not> (snd (checks (session [idle_inputs, idle_inputs] example_session_world) ! 0) = Generated \<and>
      snd (checks (session [idle_inputs, idle_inputs] example_session_world) ! 1) \<noteq> Not_due)"
proof -
  have ev: "checks (session [idle_inputs, idle_inputs] example_session_world) =
      [(36011000000, Generated), (36012000000, Not_due)]"
    by (simp add: run_defs)
  have h: "last_auto_time example_session_world = None" "checks example_session_world = []"
    "\<forall>n. 0 \<le> ticks example_session_world n"
    by (simp_all add: example_session_world_def example_world_def)
  from auto_generation_spacing [OF h, of 0 1 "[idle_inputs, idle_inputs]"] ev h
  show ?thesis by simp
qed

text \<open>
  Without the two conditions the statement of C4 fails. First, \<open>last_auto_time\<close> is assigned
  after \<^verbatim>\<open>auto_generate_data\<close> has returned: in the session on \<open>example_malformed_world\<close>,
  whose clock is never set back, the first test is due and its generation raises (the
  file cannot be loaded); the second run clears the file, and its test, a quarter of a
  second later, is due again and generates. Second, in the session on
  \<open>example_stepback_world\<close> the first test generates, the clock is set back, and the second
  test, whose reading is half a second before that of the first, generates too.
\<close>

theorem auto_generation_spacing_counterexample:
  "last_auto_time example_malformed_world = None \<and> checks example_malformed_world = [] \<and>
   (\<forall>n. 0 \<le> ticks example_malformed_world n) \<and>
   checks (session [idle_inputs, clear_inputs] example_malformed_world) =
     [(36011000000, Raised), (36011250000, Generated)] \<and>
   last_auto_time example_stepback_world = None \<and> checks example_stepback_world = [] \<and>
   checks (session [idle_inputs, idle_inputs] example_stepback_world) =
     [(36011000000, Generated), (36010500000, Generated)]"
  by (simp add: run_defs)

text \<open>
  As long as the file cannot be loaded, every test is due and raises, however soon it
  comes; no record is written.
\<close>

lemma raised_generation_is_retried:
  "checks (session [idle_inputs, idle_inputs] example_malformed_world) =
     [(36011000000, Raised), (36011250000, Raised)] \<and>
   csv_file (session [idle_inputs, idle_inputs] example_malformed_world) =
     csv_file example_malformed_world"
  by (simp add: run_defs)

end
